theory Spec2Isabelle
  imports Complex_Main "HOL-Library.Sublist"
begin

section \<open>Python values used by the pipeline\<close>

text \<open>
  A Python \<open>str\<close> is a sequence of Unicode code points; \<open>len\<close> counts code points and
  slicing cuts between them.  The messages of the pipeline hold code points above 255, so
  a string is a list of natural numbers.  \<open>u\<close> embeds an ASCII literal.
\<close>

type_synonym str = "nat list"

definition u :: "string \<Rightarrow> str" where
  "u s = map of_char s"

text \<open>
  The values a search result may hold under a key: \<open>None\<close>, a string, an integer or a
  float.  Floats are only passed through by the pipeline (score, temperature), never
  computed with, so they are reals here.
\<close>

datatype pyval = PNone | PStr str | PInt int | PFloat real

text \<open>A search result and a source entry are dicts with string keys.\<close>

type_synonym pydict = "string \<rightharpoonup> pyval"

text \<open>\<open>d.get(k, default)\<close>\<close>

definition dict_get :: "pydict \<Rightarrow> string \<Rightarrow> pyval \<Rightarrow> pyval" where
  "dict_get d k dflt = (case d k of None \<Rightarrow> dflt | Some v \<Rightarrow> v)"

text \<open>Truth value of a Python object, as \<open>if not content\<close> tests it.\<close>

fun truthy :: "pyval \<Rightarrow> bool" where
  "truthy PNone = False"
| "truthy (PStr s) = (s \<noteq> [])"
| "truthy (PInt i) = (i \<noteq> 0)"
| "truthy (PFloat r) = (r \<noteq> 0)"

text \<open>
  An exception caught by \<open>except Exception as e\<close>: its class name and what \<open>str(e)\<close>
  does.  \<open>str(e)\<close> runs the \<open>__str__\<close> of the class, which returns the message or
  raises an exception of its own.
  (\<open>KeyboardInterrupt\<close>, \<open>SystemExit\<close> and \<open>GeneratorExit\<close> are not instances of
  \<open>Exception\<close> and are outside the model.)
\<close>

datatype exc = PyExc (exc_class: string) (py_str: "exc + str")

text \<open>\<open>type(x).__name__\<close>\<close>

fun type_name :: "pyval \<Rightarrow> string" where
  "type_name PNone = ''NoneType''"
| "type_name (PStr s) = ''str''"
| "type_name (PInt i) = ''int''"
| "type_name (PFloat r) = ''float''"

text \<open>The \<open>TypeError\<close> that \<open>len(x)\<close> raises when \<open>x\<close> has no length.\<close>

definition no_len :: "pyval \<Rightarrow> exc" where
  "no_len v =
     PyExc ''TypeError''
       (Inr (u ''object of type '' @ [39] @ u (type_name v) @ [39] @ u '' has no len()''))"

text \<open>
  \<open>s.lower()\<close> on the ASCII letters; every other code point is kept.  (Python lowers
  non-ASCII letters too; none of them lowers to a letter of \<open>rate limit\<close>, the only
  text the pipeline looks for in a lowered string.)
\<close>

definition lower_cp :: "nat \<Rightarrow> nat" where
  "lower_cp c = (if 65 \<le> c \<and> c \<le> 90 then c + 32 else c)"

definition py_lower :: "str \<Rightarrow> str" where
  "py_lower s = map lower_cp s"

text \<open>\<open>sub in s\<close> for strings: \<open>sub\<close> occurs in \<open>s\<close> as a contiguous run.\<close>

definition str_in :: "str \<Rightarrow> str \<Rightarrow> bool" where
  "str_in sub s = sublist sub s"


section \<open>The gateways\<close>

text \<open>
  The search client and the OpenAI client are external collaborators.  Each is a function
  of its arguments that returns a value or raises; \<open>rag_answer\<close> calls each at most once.
  The search client returns a list of dicts or \<open>None\<close>.
\<close>

type_synonym search_gateway = "str \<Rightarrow> int \<Rightarrow> exc + pydict list option"

type_synonym generation_gateway = "str \<Rightarrow> str \<Rightarrow> str list \<Rightarrow> real \<Rightarrow> exc + str"

text \<open>The calls made to the gateways, in order, with their arguments.\<close>

datatype gateway_call =
    is_SearchCall: SearchCall str int
  | is_GenerateCall: GenerateCall str str "str list" real

definition search_documents_text_only ::
  "search_gateway \<Rightarrow> str \<Rightarrow> int \<Rightarrow> gateway_call list \<Rightarrow>
     (exc + pydict list option) \<times> gateway_call list" where
  "search_documents_text_only search query top_k calls =
     (search query top_k, calls @ [SearchCall query top_k])"

definition generate_response ::
  "generation_gateway \<Rightarrow> str \<Rightarrow> str \<Rightarrow> str list \<Rightarrow> real \<Rightarrow> gateway_call list \<Rightarrow>
     (exc + str) \<times> gateway_call list" where
  "generate_response generate system_prompt user_message context_chunks temperature calls =
     (generate system_prompt user_message context_chunks temperature,
      calls @ [GenerateCall system_prompt user_message context_chunks temperature])"


section \<open>The pipeline\<close>

definition system_prompt :: str where
  "system_prompt =
     u ''Eres un asistente especializado para field engineers de disp'' @
     u ''ositivos biom'' @ [233] @ u ''dicos. '' @ [10] @
     u ''Tu funci'' @ [243] @ u ''n es ayudar a los t'' @ [233] @
     u ''cnicos a encontrar informaci'' @ [243] @ u ''n en los manuales t'' @ [233] @
     u ''cnicos y de usuario.'' @ [10, 10] @
     u ''INSTRUCCIONES:'' @ [10] @
     u ''- Usa '' @ [218] @ u ''NICAMENTE la informaci'' @ [243] @
     u ''n proporcionada en el contexto de los manuales.'' @ [10] @
     u ''- Si el contexto no contiene informaci'' @ [243] @
     u ''n suficiente para responder la pregunta, di claramente: '' @ [34] @
     u ''No encontr'' @ [233] @ u '' informaci'' @ [243] @
     u ''n suficiente en los manuales para responder esta pregunta.'' @ [34, 10] @
     u ''- Proporciona respuestas claras, concisas y t'' @ [233] @ u ''cnicas.'' @ [10] @
     u ''- Si mencionas procedimientos, s'' @ [233] @ u '' espec'' @ [237] @
     u ''fico sobre los pasos.'' @ [10] @
     u ''- Si hay informaci'' @ [243] @ u ''n sobre modelos o n'' @ [250] @
     u ''meros de parte, incl'' @ [250] @ u ''yela en tu respuesta.''"

record answer_result =
  answer :: str
  sources :: "pydict list"

definition no_results_answer :: str where
  "no_results_answer =
     u ''No se encontr'' @ [243] @ u '' informaci'' @ [243] @
     u ''n relevante en los manuales para responder tu pregunta. Por '' @
     u ''favor, intenta reformularla o usar t'' @ [233] @ u ''rminos m'' @ [225] @
     u ''s espec'' @ [237] @ u ''ficos.''"

definition no_text_answer :: str where
  "no_text_answer =
     u ''Se encontraron documentos pero no conten'' @ [237] @ u ''an texto '' @ [250] @
     u ''til. Por favor, intenta otra pregunta.''"

definition MAX_CHARS_PER_CHUNK :: nat where
  "MAX_CHARS_PER_CHUNK = 2000"

definition MAX_TOTAL_CONTEXT :: nat where
  "MAX_TOTAL_CONTEXT = 6000"

definition truncation_marker :: str where
  "truncation_marker = u ''... [texto truncado]''"

text \<open>
  The loop \<open>for doc in search_results\<close> that builds \<open>context_chunks\<close>, with the loop
  variables \<open>context_chunks\<close> and \<open>total_chars\<close> as accumulators.  \<open>continue\<close> is
  the recursive call on the rest with the accumulators unchanged, \<open>break\<close> returns the
  chunks collected so far.
\<close>

fun context_loop :: "pydict list \<Rightarrow> str list \<Rightarrow> nat \<Rightarrow> exc + str list" where
  "context_loop [] context_chunks total_chars = Inr context_chunks"
| "context_loop (doc # rest) context_chunks total_chars =
     (let content = dict_get doc ''content'' (PStr []) in
      if \<not> truthy content then context_loop rest context_chunks total_chars
      else
        (case content of
           PStr s \<Rightarrow>
             (let content = (if length s > MAX_CHARS_PER_CHUNK
                             then take MAX_CHARS_PER_CHUNK s @ truncation_marker
                             else s);
                  chunk_size = length content
              in
                if total_chars + chunk_size > MAX_TOTAL_CONTEXT then
                  (if context_chunks \<noteq> [] then Inr context_chunks
                   else Inr (context_chunks @
                               [take MAX_TOTAL_CONTEXT content @ truncation_marker]))
                else context_loop rest (context_chunks @ [content]) (total_chars + chunk_size))
         | v \<Rightarrow> Inl (no_len v)))"

definition build_context :: "pydict list \<Rightarrow> exc + str list" where
  "build_context search_results = context_loop search_results [] 0"

text \<open>The body of the loop that prepares \<open>sources\<close>: one entry per search result.\<close>

definition source_info :: "pydict \<Rightarrow> pydict" where
  "source_info doc =
     (let info =
            [''source'' \<mapsto> dict_get doc ''source'' (PStr (u ''Unknown'')),
             ''score'' \<mapsto> dict_get doc ''score'' (PFloat 0.0)]
      in case doc ''path'' of
           Some p \<Rightarrow> info(''path'' \<mapsto> p)
         | None \<Rightarrow> info)"

text \<open>The body of \<open>try\<close>: a branch that raises is \<open>Inl\<close>.\<close>

definition rag_try ::
  "search_gateway \<Rightarrow> generation_gateway \<Rightarrow> str \<Rightarrow> int \<Rightarrow> real \<Rightarrow>
     (exc + answer_result) \<times> gateway_call list" where
  "rag_try search generate user_question top_k temperature =
     (case search_documents_text_only search user_question top_k [] of
        (Inl e, calls) \<Rightarrow> (Inl e, calls)
      | (Inr search_results, calls) \<Rightarrow>
          (case search_results of
             None \<Rightarrow> (Inr \<lparr>answer = no_results_answer, sources = []\<rparr>, calls)
           | Some [] \<Rightarrow> (Inr \<lparr>answer = no_results_answer, sources = []\<rparr>, calls)
           | Some (d # ds) \<Rightarrow>
               (case build_context (d # ds) of
                  Inl e \<Rightarrow> (Inl e, calls)
                | Inr context_chunks \<Rightarrow>
                    if context_chunks = []
                    then (Inr \<lparr>answer = no_text_answer, sources = []\<rparr>, calls)
                    else
                      (case generate_response generate system_prompt user_question
                              context_chunks temperature calls of
                         (Inl e, calls') \<Rightarrow> (Inl e, calls')
                       | (Inr generated, calls') \<Rightarrow>
                           (Inr \<lparr>answer = generated, sources = map source_info (d # ds)\<rparr>,
                            calls')))))"

definition rate_limit_phrase :: str where
  "rate_limit_phrase = u ''L'' @ [237] @ u ''mite de tasa alcanzado''"

definition rate_limit_prefix :: str where
  "rate_limit_prefix =
     [9888, 65039] @ u '' **L'' @ [237] @ u ''mite de tasa alcanzado**'' @ [10, 10]"

definition rate_limit_suffix :: str where
  "rate_limit_suffix =
     [10, 10] @ u ''Por favor, espera un momento antes de hacer otra pregunta.''"

definition generic_error_prefix :: str where
  "generic_error_prefix = [10060] @ u '' **Error al procesar tu pregunta**'' @ [10, 10]"

definition generic_error_suffix :: str where
  "generic_error_suffix =
     [10, 10] @ u ''Por favor, intenta de nuevo o verifica tu configuraci'' @ [243] @
     u ''n de Azure.''"

text \<open>
  The handler \<open>except Exception as e\<close>.  Its first statement, \<open>error_message = str(e)\<close>,
  is under no \<open>try\<close>: an exception that \<open>str(e)\<close> raises leaves the handler.
\<close>

definition handle_exception :: "exc \<Rightarrow> exc + answer_result" where
  "handle_exception e =
     (case py_str e of
        Inl raised \<Rightarrow> Inl raised
      | Inr error_message \<Rightarrow>
          if str_in rate_limit_phrase error_message
             \<or> str_in (u ''rate limit'') (py_lower error_message)
          then Inr \<lparr>answer = rate_limit_prefix @ error_message @ rate_limit_suffix,
                    sources = []\<rparr>
          else Inr \<lparr>answer = generic_error_prefix @ error_message @ generic_error_suffix,
                    sources = []\<rparr>)"

text \<open>
  \<open>rag_answer\<close>: the result of the call (\<open>Inl\<close> would be an exception that leaves the
  method) and the gateway calls it made.
\<close>

definition rag_answer ::
  "search_gateway \<Rightarrow> generation_gateway \<Rightarrow> str \<Rightarrow> int \<Rightarrow> real \<Rightarrow>
     (exc + answer_result) \<times> gateway_call list" where
  "rag_answer search generate user_question top_k temperature =
     (case rag_try search generate user_question top_k temperature of
        (Inr result, calls) \<Rightarrow> (Inr result, calls)
      | (Inl e, calls) \<Rightarrow> (handle_exception e, calls))"


section \<open>Notions used to state the properties\<close>

text \<open>
  The contents the loop does not skip, in the order of the search results: the non-empty
  strings under \<open>content\<close>.
\<close>

fun usable_contents :: "pydict list \<Rightarrow> str list" where
  "usable_contents [] = []"
| "usable_contents (doc # rest) =
     (case dict_get doc ''content'' (PStr []) of
        PStr s \<Rightarrow> (if s = [] then usable_contents rest else s # usable_contents rest)
      | _ \<Rightarrow> usable_contents rest)"

text \<open>
  The per-chunk truncation as the specification words it: a content longer than
  \<open>maxCharsPerChunk\<close> is cut to that length and the truncation marker is appended.
\<close>

definition spec_truncate :: "str \<Rightarrow> str" where
  "spec_truncate s =
     (if length s > MAX_CHARS_PER_CHUNK then take MAX_CHARS_PER_CHUNK s @ truncation_marker
      else s)"

text \<open>A search result that holds only a content.\<close>

definition passage :: "str \<Rightarrow> pydict" where
  "passage s = [''content'' \<mapsto> PStr s]"


section \<open>Example inputs\<close>

text \<open>A search result with a content, a source and a page number, and no score or path.\<close>

definition one_passage :: pydict where
  "one_passage = [''content'' \<mapsto> PStr (u ''abc''), ''source'' \<mapsto> PStr (u ''m.pdf''),
                  ''pageNumber'' \<mapsto> PInt 7]"

definition one_passage_search :: search_gateway where
  "one_passage_search query top_k = Inr (Some [one_passage])"

text \<open>A search result without \<open>source\<close>, \<open>score\<close> and \<open>path\<close>.\<close>

definition bare_passage :: pydict where
  "bare_passage = [''content'' \<mapsto> PStr (u ''abc''), ''pageNumber'' \<mapsto> PInt 7]"

definition bare_passage_search :: search_gateway where
  "bare_passage_search query top_k = Inr (Some [bare_passage])"

definition empty_search :: search_gateway where
  "empty_search query top_k = Inr (Some [])"

text \<open>Two results, one with an empty content and one with no content at all.\<close>

definition empty_content_search :: search_gateway where
  "empty_content_search query top_k =
     Inr (Some [[''content'' \<mapsto> PStr []], [''source'' \<mapsto> PStr (u ''m.pdf'')]])"

definition failing_search :: search_gateway where
  "failing_search query top_k =
     Inl (PyExc ''ConnectionError'' (Inr (u ''connection refused'')))"

definition echo_generate :: generation_gateway where
  "echo_generate sp um cc temperature = Inr (concat cc)"

definition failing_generate :: "str \<Rightarrow> generation_gateway" where
  "failing_generate msg sp um cc temperature = Inl (PyExc ''Exception'' (Inr msg))"

text \<open>
  An exception whose \<open>__str__\<close> raises, and a search gateway that raises it.
\<close>

definition unprintable_error :: exc where
  "unprintable_error =
     PyExc ''BrokenError'' (Inl (PyExc ''RuntimeError'' (Inr (u ''no message''))))"

definition unprintable_search :: search_gateway where
  "unprintable_search query top_k = Inl unprintable_error"

text \<open>The localized phrase in lower case, and an English message in mixed case.\<close>

definition lowercase_phrase :: str where
  "lowercase_phrase = u ''l'' @ [237] @ u ''mite de tasa alcanzado''"

definition rate_limit_message :: str where
  "rate_limit_message = u ''Error 429: Rate Limit exceeded''"


section \<open>The context loop\<close>

lemma length_truncation_marker: "length truncation_marker = 20"
  by (simp add: truncation_marker_def u_def)

lemma length_spec_truncate: "length (spec_truncate s) \<le> 2020"
  by (simp add: spec_truncate_def MAX_CHARS_PER_CHUNK_def length_truncation_marker)

lemma context_loop_prefix:
  "context_loop docs acc tot = Inr chunks \<Longrightarrow> tot = sum_list (map length acc) \<Longrightarrow>
     \<exists>k. chunks = acc @ take k (map spec_truncate (usable_contents docs))"
proof (induction docs arbitrary: acc tot)
  case Nil
  then show ?case by simp
next
  case (Cons doc rest)
  show ?case
  proof (cases "dict_get doc ''content'' (PStr [])")
    case PNone
    with Cons show ?thesis by simp
  next
    case (PStr s)
    show ?thesis
    proof (cases "s = []")
      case True
      with Cons PStr show ?thesis by simp
    next
      case False
      let ?c = "spec_truncate s"
      show ?thesis
      proof (cases "tot + length ?c > MAX_TOTAL_CONTEXT")
        case over: True
        have "acc \<noteq> []"
        proof
          assume "acc = []"
          with Cons.prems(2) have "tot = 0" by simp
          with over length_spec_truncate[of s] show False
            by (simp add: MAX_TOTAL_CONTEXT_def)
        qed
        with Cons.prems(1) PStr False over have "chunks = acc"
          by (simp add: spec_truncate_def Let_def)
        then have "chunks = acc @ take 0 (map spec_truncate (usable_contents (doc # rest)))"
          by simp
        then show ?thesis by blast
      next
        case fits: False
        with Cons.prems(1) PStr False
        have "context_loop rest (acc @ [?c]) (tot + length ?c) = Inr chunks"
          by (simp add: spec_truncate_def Let_def)
        moreover have "tot + length ?c = sum_list (map length (acc @ [?c]))"
          using Cons.prems(2) by simp
        ultimately obtain k where
          "chunks = (acc @ [?c]) @ take k (map spec_truncate (usable_contents rest))"
          using Cons.IH by blast
        then have "chunks = acc @ take (Suc k) (map spec_truncate (usable_contents (doc # rest)))"
          using PStr False by simp
        then show ?thesis by blast
      qed
    qed
  next
    case (PInt i)
    with Cons show ?thesis by (cases "i = 0") simp_all
  next
    case (PFloat r)
    with Cons show ?thesis by (cases "r = 0") simp_all
  qed
qed

lemma context_loop_total:
  "context_loop docs acc tot = Inr chunks \<Longrightarrow> tot = sum_list (map length acc) \<Longrightarrow>
   tot \<le> MAX_TOTAL_CONTEXT \<Longrightarrow>
     sum_list (map length chunks) \<le> MAX_TOTAL_CONTEXT \<or>
     (\<exists>c. chunks = [c] \<and> length c = MAX_TOTAL_CONTEXT + length truncation_marker)"
proof (induction docs arbitrary: acc tot)
  case Nil
  then show ?case by simp
next
  case (Cons doc rest)
  show ?case
  proof (cases "dict_get doc ''content'' (PStr [])")
    case PNone
    with Cons show ?thesis by simp
  next
    case (PStr s)
    show ?thesis
    proof (cases "s = []")
      case True
      with Cons PStr show ?thesis by simp
    next
      case False
      let ?c = "spec_truncate s"
      show ?thesis
      proof (cases "tot + length ?c > MAX_TOTAL_CONTEXT")
        case over: True
        show ?thesis
        proof (cases "acc = []")
          case True
          with Cons.prems(2) have t0: "tot = 0" by simp
          from Cons.prems(1) PStr False over True
          have "chunks = [take MAX_TOTAL_CONTEXT ?c @ truncation_marker]"
            by (simp add: spec_truncate_def Let_def)
          moreover from over t0 have "length (take MAX_TOTAL_CONTEXT ?c) = MAX_TOTAL_CONTEXT"
            by simp
          ultimately show ?thesis by simp
        next
          case False
          with Cons.prems(1) PStr \<open>s \<noteq> []\<close> over have "chunks = acc"
            by (simp add: spec_truncate_def Let_def)
          with Cons.prems(2,3) show ?thesis by simp
        qed
      next
        case fits: False
        with Cons.prems(1) PStr False
        have "context_loop rest (acc @ [?c]) (tot + length ?c) = Inr chunks"
          by (simp add: spec_truncate_def Let_def)
        moreover have "tot + length ?c = sum_list (map length (acc @ [?c]))"
          using Cons.prems(2) by simp
        moreover have "tot + length ?c \<le> MAX_TOTAL_CONTEXT" using fits by simp
        ultimately show ?thesis using Cons.IH by blast
      qed
    qed
  next
    case (PInt i)
    with Cons show ?thesis by (cases "i = 0") simp_all
  next
    case (PFloat r)
    with Cons show ?thesis by (cases "r = 0") simp_all
  qed
qed


lemma build_context_prefix:
  assumes "build_context docs = Inr chunks"
  shows "\<exists>k. chunks = take k (map spec_truncate (usable_contents docs))"
  using context_loop_prefix[of docs "[]" 0 chunks] assms by (simp add: build_context_def)

lemma build_context_nth:
  assumes "build_context docs = Inr chunks" "i < length chunks"
  shows "i < length (usable_contents docs) \<and> chunks ! i = spec_truncate (usable_contents docs ! i)"
proof -
  from build_context_prefix[OF assms(1)] obtain k where
    k: "chunks = take k (map spec_truncate (usable_contents docs))" by blast
  with assms(2) have "i < k" "i < length (usable_contents docs)" by simp_all
  with k show ?thesis by simp
qed

lemma build_context_entry_length:
  assumes "build_context docs = Inr chunks" "c \<in> set chunks"
  shows "length c \<le> MAX_CHARS_PER_CHUNK + length truncation_marker"
proof -
  from assms(2) obtain i where i: "i < length chunks" "chunks ! i = c"
    by (auto simp: in_set_conv_nth)
  from build_context_nth[OF assms(1) i(1)] i(2) length_spec_truncate[of "usable_contents docs ! i"]
  show ?thesis by (simp add: MAX_CHARS_PER_CHUNK_def length_truncation_marker)
qed

lemma scenario_C:
  "build_context [passage (replicate 3000 97), passage (replicate 3000 97),
       passage (replicate 3000 97), passage (replicate 3000 97), passage (replicate 3000 97)] =
     Inr [replicate 2000 97 @ truncation_marker, replicate 2000 97 @ truncation_marker]"
  by (simp add: build_context_def passage_def dict_get_def
        MAX_CHARS_PER_CHUNK_def MAX_TOTAL_CONTEXT_def length_truncation_marker Let_def)


text \<open>
  C2: the lengths of the chunks the loop returns add up to at most \<open>MAX_TOTAL_CONTEXT\<close>
  (6000), except when the bundle is the single hard-truncated chunk, whose length is
  exactly \<open>MAX_TOTAL_CONTEXT\<close> plus the length of the truncation marker.
\<close>

theorem C2_context_total_bounded:
  "build_context search_results = Inr context_chunks \<Longrightarrow>
     MAX_TOTAL_CONTEXT = 6000 \<and>
     (sum_list (map length context_chunks) \<le> MAX_TOTAL_CONTEXT \<or>
      (\<exists>c. context_chunks = [c] \<and> length c = MAX_TOTAL_CONTEXT + length truncation_marker))"
  using context_loop_total[of search_results "[]" 0 context_chunks]
  by (simp add: build_context_def MAX_TOTAL_CONTEXT_def)


theorem C2_context_total_bounded_witness:
  "build_context [passage (replicate 3000 97), passage (replicate 3000 97),
       passage (replicate 3000 97), passage (replicate 3000 97), passage (replicate 3000 97)] =
     Inr [replicate 2000 97 @ truncation_marker, replicate 2000 97 @ truncation_marker] \<and>
   MAX_TOTAL_CONTEXT = 6000 \<and>
   sum_list (map length
     [replicate 2000 97 @ truncation_marker, replicate 2000 (97::nat) @ truncation_marker])
     \<le> MAX_TOTAL_CONTEXT"
  using scenario_C C2_context_total_bounded[OF scenario_C]
  by (simp add: length_truncation_marker)

text \<open>
  C6: for a non-empty list of search results, the chunks are, in order, truncations of a
  subsequence of the non-empty contents: nothing is reordered.
\<close>

theorem C6_order_preserved:
  assumes "search_results \<noteq> []" and "build_context search_results = Inr context_chunks"
  shows "\<exists>included. subseq included (usable_contents search_results) \<and>
           list_all2 (\<lambda>chunk content. chunk = content \<or>
                         (\<exists>n. chunk = take n content @ truncation_marker))
             context_chunks included"
proof -
  from build_context_prefix[OF assms(2)] obtain k where
    k: "context_chunks = take k (map spec_truncate (usable_contents search_results))" by blast
  let ?inc = "take k (usable_contents search_results)"
  have "subseq ?inc (usable_contents search_results)"
    by (simp add: prefix_imp_subseq take_is_prefix)
  moreover have "list_all2 (\<lambda>chunk content. chunk = content \<or>
                         (\<exists>n. chunk = take n content @ truncation_marker))
             context_chunks ?inc"
    unfolding k take_map list_all2_map1
    by (rule list_all2_refl) (auto simp: spec_truncate_def)
  ultimately show ?thesis by blast
qed

theorem C6_order_preserved_witness:
  "[passage (replicate 3000 97), passage [], passage (replicate 5 98)] \<noteq> [] \<and>
   build_context [passage (replicate 3000 97), passage [], passage (replicate 5 98)] =
     Inr [replicate 2000 97 @ truncation_marker, replicate 5 98] \<and>
   (\<exists>included.
      subseq included
        (usable_contents [passage (replicate 3000 97), passage [], passage (replicate 5 98)]) \<and>
      list_all2 (\<lambda>chunk content. chunk = content \<or>
                    (\<exists>n. chunk = take n content @ truncation_marker))
        [replicate 2000 97 @ truncation_marker, replicate 5 98] included)"
proof -
  have h: "build_context [passage (replicate 3000 97), passage [], passage (replicate 5 98)] =
     Inr [replicate 2000 97 @ truncation_marker, replicate 5 98]"
    by (simp add: build_context_def passage_def dict_get_def
        MAX_CHARS_PER_CHUNK_def MAX_TOTAL_CONTEXT_def length_truncation_marker Let_def)
  show ?thesis using h C6_order_preserved[OF _ h] by simp
qed

text \<open>
  What the loop returns: the candidates of the first \<open>k\<close> non-empty contents, where the
  next candidate, when there is one, does not fit.
\<close>

lemma context_loop_exact:
  "context_loop docs acc tot = Inr chunks \<Longrightarrow> tot = sum_list (map length acc) \<Longrightarrow>
     \<exists>k \<le> length (usable_contents docs).
        chunks = acc @ map spec_truncate (take k (usable_contents docs)) \<and>
        (k < length (usable_contents docs) \<longrightarrow>
           sum_list (map length chunks) + length (spec_truncate (usable_contents docs ! k))
             > MAX_TOTAL_CONTEXT)"
proof (induction docs arbitrary: acc tot)
  case Nil
  then show ?case by simp
next
  case (Cons doc rest)
  show ?case
  proof (cases "dict_get doc ''content'' (PStr [])")
    case PNone
    with Cons show ?thesis by simp
  next
    case (PStr s)
    show ?thesis
    proof (cases "s = []")
      case True
      with Cons PStr show ?thesis by simp
    next
      case False
      let ?c = "spec_truncate s"
      have U: "usable_contents (doc # rest) = s # usable_contents rest"
        using PStr False by simp
      show ?thesis
      proof (cases "tot + length ?c > MAX_TOTAL_CONTEXT")
        case over: True
        have "acc \<noteq> []"
        proof
          assume "acc = []"
          with Cons.prems(2) have "tot = 0" by simp
          with over length_spec_truncate[of s] show False
            by (simp add: MAX_TOTAL_CONTEXT_def)
        qed
        with Cons.prems(1) PStr False over have "chunks = acc"
          by (simp add: spec_truncate_def Let_def)
        with over Cons.prems(2) U show ?thesis
          by (intro exI[of _ 0]) simp
      next
        case fits: False
        with Cons.prems(1) PStr False
        have "context_loop rest (acc @ [?c]) (tot + length ?c) = Inr chunks"
          by (simp add: spec_truncate_def Let_def)
        moreover have "tot + length ?c = sum_list (map length (acc @ [?c]))"
          using Cons.prems(2) by simp
        ultimately obtain k where k: "k \<le> length (usable_contents rest)"
          "chunks = (acc @ [?c]) @ map spec_truncate (take k (usable_contents rest))"
          "k < length (usable_contents rest) \<longrightarrow>
             sum_list (map length chunks) + length (spec_truncate (usable_contents rest ! k))
               > MAX_TOTAL_CONTEXT"
          using Cons.IH by blast
        with U show ?thesis
          by (intro exI[of _ "Suc k"]) simp
      qed
    qed
  next
    case (PInt i)
    with Cons show ?thesis by (cases "i = 0") simp_all
  next
    case (PFloat r)
    with Cons show ?thesis by (cases "r = 0") simp_all
  qed
qed

lemma build_context_exact:
  assumes "build_context docs = Inr chunks"
  shows "length chunks \<le> length (usable_contents docs) \<and>
         chunks = map spec_truncate (take (length chunks) (usable_contents docs)) \<and>
         (length chunks < length (usable_contents docs) \<longrightarrow>
            sum_list (map length chunks) +
              length (spec_truncate (usable_contents docs ! length chunks))
              > MAX_TOTAL_CONTEXT) \<and>
         (usable_contents docs \<noteq> [] \<longrightarrow> chunks \<noteq> [])"
proof -
  from context_loop_exact[of docs "[]" 0 chunks] assms obtain k where
    k: "k \<le> length (usable_contents docs)"
       "chunks = map spec_truncate (take k (usable_contents docs))"
       "k < length (usable_contents docs) \<longrightarrow>
          sum_list (map length chunks) + length (spec_truncate (usable_contents docs ! k))
            > MAX_TOTAL_CONTEXT"
    by (auto simp: build_context_def)
  from k(1,2) have len: "length chunks = k" by simp
  have "chunks \<noteq> []" if "usable_contents docs \<noteq> []"
  proof
    assume "chunks = []"
    with len have "k = 0" by simp
    with k(3) that \<open>chunks = []\<close>
    have "length (spec_truncate (usable_contents docs ! 0)) > MAX_TOTAL_CONTEXT" by simp
    with length_spec_truncate[of "usable_contents docs ! 0"] show False
      by (simp add: MAX_TOTAL_CONTEXT_def)
  qed
  with k len show ?thesis by simp
qed

text \<open>The loop raises only at a content that is neither a string nor falsy.\<close>

lemma context_loop_returns:
  "\<forall>d \<in> set docs. d ''content'' = None \<or> d ''content'' = Some PNone \<or>
      (\<exists>s. d ''content'' = Some (PStr s)) \<Longrightarrow>
     \<exists>chunks. context_loop docs acc tot = Inr chunks"
proof (induction docs arbitrary: acc tot)
  case Nil
  then show ?case by simp
next
  case (Cons doc rest)
  then have rest: "\<And>acc tot. \<exists>chunks. context_loop rest acc tot = Inr chunks" by simp
  from Cons.prems consider "doc ''content'' = None" | "doc ''content'' = Some PNone"
    | s where "doc ''content'' = Some (PStr s)" by auto
  then show ?case
  proof cases
    case 1
    with rest show ?thesis by (simp add: dict_get_def)
  next
    case 2
    with rest show ?thesis by (simp add: dict_get_def)
  next
    case 3
    with rest show ?thesis by (simp add: dict_get_def Let_def)
  qed
qed

text \<open>One step of the loop at a non-empty string content.\<close>

lemma context_loop_step:
  assumes "dict_get doc ''content'' (PStr []) = PStr s" and "s \<noteq> []"
  shows "context_loop (doc # rest) acc tot =
           (if tot + length (spec_truncate s) > MAX_TOTAL_CONTEXT
            then (if acc \<noteq> [] then Inr acc
                  else Inr [take MAX_TOTAL_CONTEXT (spec_truncate s) @ truncation_marker])
            else context_loop rest (acc @ [spec_truncate s]) (tot + length (spec_truncate s)))"
  using assms by (simp add: spec_truncate_def Let_def)

lemma build_context_mixed:
  "build_context [passage (replicate 3000 97), passage [], passage (replicate 5 98)] =
     Inr [replicate 2000 97 @ truncation_marker, replicate 5 98]"
  by (simp add: build_context_def passage_def dict_get_def
        MAX_CHARS_PER_CHUNK_def MAX_TOTAL_CONTEXT_def length_truncation_marker Let_def)

text \<open>
  C7: the candidate chunk of a passage whose content is longer than
  \<open>MAX_CHARS_PER_CHUNK\<close> (2000) is the first 2000 characters of the content followed by
  the truncation marker, and a content of at most 2000 characters is its own candidate:
  \<open>spec_truncate\<close>.  The loop makes this candidate for every passage with a non-empty
  content that it reaches, before the aggregate check, which is on the candidate's length.
  The bundle is made of these candidates: when the loop returns, its chunks are the
  candidates of a first part of the non-empty contents, none is left out unless its
  candidate fails the aggregate check, and the bundle is not empty when there is a non-empty
  content.  The loop returns whenever every content is a string, \<open>None\<close> or absent.
\<close>

theorem C7_per_chunk_truncation:
  "MAX_CHARS_PER_CHUNK = 2000 \<and>
   (length s > 2000 \<longrightarrow> spec_truncate s = take 2000 s @ truncation_marker) \<and>
   (length s \<le> 2000 \<longrightarrow> spec_truncate s = s) \<and>
   (dict_get doc ''content'' (PStr []) = PStr s \<longrightarrow> s \<noteq> [] \<longrightarrow>
      context_loop (doc # rest) acc tot =
        (if tot + length (spec_truncate s) > MAX_TOTAL_CONTEXT
         then (if acc \<noteq> [] then Inr acc
               else Inr [take MAX_TOTAL_CONTEXT (spec_truncate s) @ truncation_marker])
         else context_loop rest (acc @ [spec_truncate s]) (tot + length (spec_truncate s)))) \<and>
   (build_context search_results = Inr context_chunks \<longrightarrow>
      length context_chunks \<le> length (usable_contents search_results) \<and>
      context_chunks =
        map spec_truncate (take (length context_chunks) (usable_contents search_results)) \<and>
      (length context_chunks < length (usable_contents search_results) \<longrightarrow>
         sum_list (map length context_chunks) +
           length (spec_truncate (usable_contents search_results ! length context_chunks))
           > MAX_TOTAL_CONTEXT) \<and>
      (usable_contents search_results \<noteq> [] \<longrightarrow> context_chunks \<noteq> [])) \<and>
   ((\<forall>d \<in> set search_results.
        d ''content'' = None \<or> d ''content'' = Some PNone \<or>
        (\<exists>c. d ''content'' = Some (PStr c))) \<longrightarrow>
      (\<exists>chunks. build_context search_results = Inr chunks))"
proof (intro conjI impI)
  show "MAX_CHARS_PER_CHUNK = 2000" by (simp add: MAX_CHARS_PER_CHUNK_def)
next
  assume "length s > 2000"
  then show "spec_truncate s = take 2000 s @ truncation_marker"
    by (simp add: spec_truncate_def MAX_CHARS_PER_CHUNK_def)
next
  assume "length s \<le> 2000"
  then show "spec_truncate s = s"
    by (simp add: spec_truncate_def MAX_CHARS_PER_CHUNK_def)
next
  assume "dict_get doc ''content'' (PStr []) = PStr s" "s \<noteq> []"
  then show "context_loop (doc # rest) acc tot =
        (if tot + length (spec_truncate s) > MAX_TOTAL_CONTEXT
         then (if acc \<noteq> [] then Inr acc
               else Inr [take MAX_TOTAL_CONTEXT (spec_truncate s) @ truncation_marker])
         else context_loop rest (acc @ [spec_truncate s]) (tot + length (spec_truncate s)))"
    by (rule context_loop_step)
next
  assume b: "build_context search_results = Inr context_chunks"
  from build_context_exact[OF b]
  show "length context_chunks \<le> length (usable_contents search_results)"
    and "context_chunks =
        map spec_truncate (take (length context_chunks) (usable_contents search_results))"
    by simp_all
  {
    assume "length context_chunks < length (usable_contents search_results)"
    with build_context_exact[OF b]
    show "sum_list (map length context_chunks) +
           length (spec_truncate (usable_contents search_results ! length context_chunks))
           > MAX_TOTAL_CONTEXT" by simp
  }
  {
    assume "usable_contents search_results \<noteq> []"
    with build_context_exact[OF b] show "context_chunks \<noteq> []" by simp
  }
next
  assume "\<forall>d \<in> set search_results.
        d ''content'' = None \<or> d ''content'' = Some PNone \<or>
        (\<exists>c. d ''content'' = Some (PStr c))"
  then show "\<exists>chunks. build_context search_results = Inr chunks"
    unfolding build_context_def by (rule context_loop_returns)
qed

theorem C7_per_chunk_truncation_witness:
  "length (replicate 3000 (97::nat)) > 2000 \<and>
   spec_truncate (replicate 3000 97) = take 2000 (replicate 3000 97) @ truncation_marker \<and>
   length (replicate 5 (98::nat)) \<le> 2000 \<and>
   spec_truncate (replicate 5 98) = replicate 5 98 \<and>
   dict_get (passage (replicate 3000 97)) ''content'' (PStr []) = PStr (replicate 3000 97) \<and>
   replicate 3000 (97::nat) \<noteq> [] \<and>
   context_loop (passage (replicate 3000 97) # [passage (replicate 5 98)]) [] 0 =
     context_loop [passage (replicate 5 98)] ([] @ [spec_truncate (replicate 3000 97)])
       (0 + length (spec_truncate (replicate 3000 97))) \<and>
   build_context [passage (replicate 3000 97), passage [], passage (replicate 5 98)] =
     Inr [replicate 2000 97 @ truncation_marker, replicate 5 98] \<and>
   [replicate 2000 97 @ truncation_marker, replicate 5 98] =
     map spec_truncate
       (take (length [replicate 2000 97 @ truncation_marker, replicate 5 (98::nat)])
          (usable_contents
             [passage (replicate 3000 97), passage [], passage (replicate 5 98)])) \<and>
   (passage (replicate 3000 97)) ''content'' = Some (PStr (replicate 3000 97)) \<and>
   (passage []) ''content'' = Some (PStr []) \<and>
   (passage (replicate 5 98)) ''content'' = Some (PStr (replicate 5 98)) \<and>
   (\<exists>chunks.
      build_context [passage (replicate 3000 97), passage [], passage (replicate 5 98)] =
        Inr chunks)"
proof -
  note long = C7_per_chunk_truncation[of "replicate 3000 97" "passage (replicate 3000 97)"
      "[passage (replicate 5 98)]" "[]" 0
      "[passage (replicate 3000 97), passage [], passage (replicate 5 98)]"
      "[replicate 2000 97 @ truncation_marker, replicate 5 98]"]
  note short = C7_per_chunk_truncation[of "replicate 5 98" "passage (replicate 5 98)"
      "[]" "[]" 0 "[]" "[]"]
  have l: "length (replicate 3000 (97::nat)) > 2000" by simp
  have sh: "length (replicate 5 (98::nat)) \<le> 2000" by simp
  have g: "dict_get (passage (replicate 3000 97)) ''content'' (PStr []) =
             PStr (replicate 3000 97)"
    by (simp add: passage_def dict_get_def)
  have ne: "replicate 3000 (97::nat) \<noteq> []" by simp
  have fits: "\<not> 0 + length (spec_truncate (replicate 3000 97)) > MAX_TOTAL_CONTEXT"
    using length_spec_truncate[of "replicate 3000 97"] by (simp add: MAX_TOTAL_CONTEXT_def)
  have c1: "(passage (replicate 3000 97)) ''content'' = Some (PStr (replicate 3000 97))"
    and c2: "(passage []) ''content'' = Some (PStr [])"
    and c3: "(passage (replicate 5 98)) ''content'' = Some (PStr (replicate 5 98))"
    by (simp_all add: passage_def)
  from long l have 1:
    "spec_truncate (replicate 3000 97) = take 2000 (replicate 3000 97) @ truncation_marker"
    by blast
  from short sh have 2: "spec_truncate (replicate 5 98) = replicate 5 98" by blast
  from long g ne have
    "context_loop (passage (replicate 3000 97) # [passage (replicate 5 98)]) [] 0 =
       (if 0 + length (spec_truncate (replicate 3000 97)) > MAX_TOTAL_CONTEXT
        then (if ([]::str list) \<noteq> [] then Inr []
              else Inr [take MAX_TOTAL_CONTEXT (spec_truncate (replicate 3000 97)) @
                          truncation_marker])
        else context_loop [passage (replicate 5 98)] ([] @ [spec_truncate (replicate 3000 97)])
               (0 + length (spec_truncate (replicate 3000 97))))"
    by blast
  with fits have 3:
    "context_loop (passage (replicate 3000 97) # [passage (replicate 5 98)]) [] 0 =
       context_loop [passage (replicate 5 98)] ([] @ [spec_truncate (replicate 3000 97)])
         (0 + length (spec_truncate (replicate 3000 97)))"
    by (simp only: if_False)
  from long build_context_mixed have 4:
    "[replicate 2000 97 @ truncation_marker, replicate 5 98] =
     map spec_truncate
       (take (length [replicate 2000 97 @ truncation_marker, replicate 5 (98::nat)])
          (usable_contents
             [passage (replicate 3000 97), passage [], passage (replicate 5 98)]))"
    by blast
  have "\<forall>d \<in> set [passage (replicate 3000 97), passage [], passage (replicate 5 98)].
          d ''content'' = None \<or> d ''content'' = Some PNone \<or>
          (\<exists>c. d ''content'' = Some (PStr c))"
    using c1 c2 c3 by simp
  with long have 5:
    "\<exists>chunks.
      build_context [passage (replicate 3000 97), passage [], passage (replicate 5 98)] =
        Inr chunks"
    by blast
  from l 1 sh 2 g ne 3 build_context_mixed 4 c1 c2 c3 5 show ?thesis by blast
qed

text \<open>
  C9 as stated, refuted: no list of search results makes the loop return a chunk longer
  than \<open>MAX_CHARS_PER_CHUNK\<close> plus the truncation marker, so the hard-truncated entry of
  \<open>MAX_TOTAL_CONTEXT\<close> characters plus the marker never occurs.
\<close>

theorem C9_hard_truncation_counterexample:
  "\<not> (\<exists>search_results context_chunks c.
         build_context search_results = Inr context_chunks \<and> c \<in> set context_chunks \<and>
         length c > MAX_CHARS_PER_CHUNK + length truncation_marker)"
  using build_context_entry_length by (metis not_le)

text \<open>
  C9, amended: the hard-truncation branch is never taken.  Every chunk of the bundle has
  at most \<open>MAX_CHARS_PER_CHUNK\<close> characters plus the truncation marker, and with an empty
  bundle the candidate of a non-empty content never exceeds \<open>MAX_TOTAL_CONTEXT\<close>: the
  loop appends it and goes on.
\<close>

theorem C9_hard_truncation_never_taken:
  "(build_context search_results = Inr context_chunks \<longrightarrow>
      (\<forall>c \<in> set context_chunks. length c \<le> MAX_CHARS_PER_CHUNK + length truncation_marker)) \<and>
   (dict_get doc ''content'' (PStr []) = PStr s \<longrightarrow> s \<noteq> [] \<longrightarrow>
      \<not> 0 + length (spec_truncate s) > MAX_TOTAL_CONTEXT \<and>
      context_loop (doc # rest) [] 0 =
        context_loop rest ([] @ [spec_truncate s]) (0 + length (spec_truncate s)))"
proof (intro conjI impI)
  assume "build_context search_results = Inr context_chunks"
  then show "\<forall>c \<in> set context_chunks. length c \<le> MAX_CHARS_PER_CHUNK + length truncation_marker"
    using build_context_entry_length by blast
next
  show "\<not> 0 + length (spec_truncate s) > MAX_TOTAL_CONTEXT"
    using length_spec_truncate[of s] by (simp add: MAX_TOTAL_CONTEXT_def)
next
  assume "dict_get doc ''content'' (PStr []) = PStr s" "s \<noteq> []"
  moreover have "\<not> length (spec_truncate s) > MAX_TOTAL_CONTEXT"
    using length_spec_truncate[of s] by (simp add: MAX_TOTAL_CONTEXT_def)
  ultimately show "context_loop (doc # rest) [] 0 =
        context_loop rest ([] @ [spec_truncate s]) (0 + length (spec_truncate s))"
    by (simp add: spec_truncate_def Let_def)
qed

theorem C9_hard_truncation_never_taken_witness:
  "build_context [passage (replicate 3000 97), passage [], passage (replicate 5 98)] =
     Inr [replicate 2000 97 @ truncation_marker, replicate 5 98] \<and>
   length (replicate 2000 (97::nat) @ truncation_marker)
     \<le> MAX_CHARS_PER_CHUNK + length truncation_marker \<and>
   length (replicate 5 (98::nat)) \<le> MAX_CHARS_PER_CHUNK + length truncation_marker \<and>
   dict_get (passage (replicate 3000 97)) ''content'' (PStr []) = PStr (replicate 3000 97) \<and>
   replicate 3000 (97::nat) \<noteq> [] \<and>
   context_loop (passage (replicate 3000 97) # []) [] 0 =
     Inr [replicate 2000 97 @ truncation_marker]"
  using build_context_mixed
    C9_hard_truncation_never_taken[of
      "[passage (replicate 3000 97), passage [], passage (replicate 5 98)]"
      "[replicate 2000 97 @ truncation_marker, replicate 5 98]"
      "passage (replicate 3000 97)" "replicate 3000 97" "[]"]
  by (simp add: passage_def dict_get_def spec_truncate_def MAX_CHARS_PER_CHUNK_def)


section \<open>The pipeline's branches\<close>

lemma handle_exception_cases:
  "py_str e = Inr error_message \<Longrightarrow>
   handle_exception e =
     Inr \<lparr>answer =
            (if str_in rate_limit_phrase error_message \<or>
                str_in (u ''rate limit'') (py_lower error_message)
             then rate_limit_prefix @ error_message @ rate_limit_suffix
             else generic_error_prefix @ error_message @ generic_error_suffix),
          sources = []\<rparr>"
  by (simp add: handle_exception_def)

lemma handle_exception_str_raises:
  "py_str e = Inl raised \<Longrightarrow> handle_exception e = Inl raised"
  by (simp add: handle_exception_def)

lemma handle_exception_no_len: "\<exists>a. handle_exception (no_len v) = Inr \<lparr>answer = a, sources = []\<rparr>"
  by (simp add: handle_exception_cases no_len_def)

text \<open>An exception raised by the context loop is the \<open>TypeError\<close> of \<open>len\<close>.\<close>

lemma context_loop_raises:
  "context_loop docs acc tot = Inl e \<Longrightarrow> \<exists>v. e = no_len v"
proof (induction docs arbitrary: acc tot)
  case Nil
  then show ?case by simp
next
  case (Cons doc rest)
  then show ?case
    by (cases "dict_get doc ''content'' (PStr [])")
       (auto simp: Let_def split: if_splits)
qed

lemma rag_answer_search_raises:
  "search q k = Inl e \<Longrightarrow>
     rag_answer search generate q k t = (handle_exception e, [SearchCall q k])"
  by (simp add: rag_answer_def rag_try_def search_documents_text_only_def)

lemma rag_answer_no_results:
  "search q k = Inr None \<or> search q k = Inr (Some []) \<Longrightarrow>
     rag_answer search generate q k t =
       (Inr \<lparr>answer = no_results_answer, sources = []\<rparr>, [SearchCall q k])"
  by (auto simp: rag_answer_def rag_try_def search_documents_text_only_def)

lemma rag_answer_builder_raises:
  "search q k = Inr (Some docs) \<Longrightarrow> docs \<noteq> [] \<Longrightarrow> build_context docs = Inl e \<Longrightarrow>
     rag_answer search generate q k t = (handle_exception e, [SearchCall q k])"
  by (cases docs) (simp_all add: rag_answer_def rag_try_def search_documents_text_only_def)

lemma rag_answer_no_text:
  "search q k = Inr (Some docs) \<Longrightarrow> docs \<noteq> [] \<Longrightarrow> build_context docs = Inr [] \<Longrightarrow>
     rag_answer search generate q k t =
       (Inr \<lparr>answer = no_text_answer, sources = []\<rparr>, [SearchCall q k])"
  by (cases docs) (simp_all add: rag_answer_def rag_try_def search_documents_text_only_def)

lemma rag_answer_generate_raises:
  "search q k = Inr (Some docs) \<Longrightarrow> docs \<noteq> [] \<Longrightarrow> build_context docs = Inr cc \<Longrightarrow>
   cc \<noteq> [] \<Longrightarrow> generate system_prompt q cc t = Inl e \<Longrightarrow>
     rag_answer search generate q k t =
       (handle_exception e, [SearchCall q k, GenerateCall system_prompt q cc t])"
  by (cases docs)
     (simp_all add: rag_answer_def rag_try_def search_documents_text_only_def
        generate_response_def)

lemma rag_answer_success:
  "search q k = Inr (Some docs) \<Longrightarrow> docs \<noteq> [] \<Longrightarrow> build_context docs = Inr cc \<Longrightarrow>
   cc \<noteq> [] \<Longrightarrow> generate system_prompt q cc t = Inr a \<Longrightarrow>
     rag_answer search generate q k t =
       (Inr \<lparr>answer = a, sources = map source_info docs\<rparr>,
        [SearchCall q k, GenerateCall system_prompt q cc t])"
  by (cases docs)
     (simp_all add: rag_answer_def rag_try_def search_documents_text_only_def
        generate_response_def)

text \<open>Whenever a call to generate is in the trace, the pipeline reached step 4.\<close>

lemma rag_answer_generate_called:
  assumes "GenerateCall sp um cc tt \<in> set (snd (rag_answer search generate q k t))"
  shows "\<exists>docs. search q k = Inr (Some docs) \<and> docs \<noteq> [] \<and> build_context docs = Inr cc \<and>
           cc \<noteq> [] \<and> sp = system_prompt \<and> um = q \<and> tt = t"
proof (cases "search q k")
  case (Inl e)
  with assms show ?thesis by (simp add: rag_answer_search_raises)
next
  case (Inr r)
  show ?thesis
  proof (cases r)
    case None
    with Inr assms show ?thesis by (simp add: rag_answer_no_results)
  next
    case (Some docs)
    show ?thesis
    proof (cases "docs = []")
      case True
      with Inr Some assms show ?thesis by (simp add: rag_answer_no_results)
    next
      case ne: False
      show ?thesis
      proof (cases "build_context docs")
        case (Inl e)
        with Inr Some ne assms show ?thesis by (simp add: rag_answer_builder_raises)
      next
        case bc: (Inr chunks)
        show ?thesis
        proof (cases "chunks = []")
          case True
          with Inr Some ne bc assms show ?thesis by (simp add: rag_answer_no_text)
        next
          case cne: False
          show ?thesis
          proof (cases "generate system_prompt q chunks t")
            case (Inl e)
            from rag_answer_generate_raises[of search q k docs chunks generate t e] Inr Some
              ne bc cne Inl assms
            have "cc = chunks \<and> sp = system_prompt \<and> um = q \<and> tt = t" by simp
            with Inr Some ne bc cne show ?thesis by simp
          next
            case (Inr a)
            from rag_answer_success[of search q k docs chunks generate t a]
              \<open>search q k = Inr r\<close> Some ne bc cne Inr assms
            have "cc = chunks \<and> sp = system_prompt \<and> um = q \<and> tt = t" by simp
            with \<open>search q k = Inr r\<close> Some ne bc cne show ?thesis by simp
          qed
        qed
      qed
    qed
  qed
qed

text \<open>
  C1, amended: for every question, \<open>top_k\<close> and temperature, when \<open>str\<close> of every
  exception that the search gateway or the generation gateway raises in the call returns a
  message, \<open>rag_answer\<close> returns a result with an answer and a list of sources and lets
  no exception out.  The result for a raising search call, and for a raising generation
  call, is an answer with no sources.
\<close>

theorem C1_returns_when_str_returns:
  "((\<forall>e'. search q k = Inl e' \<longrightarrow> (\<exists>m. py_str e' = Inr m)) \<longrightarrow>
    (\<forall>cc' e'. generate system_prompt q cc' t = Inl e' \<longrightarrow> (\<exists>m. py_str e' = Inr m)) \<longrightarrow>
      (\<exists>result calls. rag_answer search generate q k t = (Inr result, calls))) \<and>
   (search q k = Inl e \<longrightarrow> py_str e = Inr error_message \<longrightarrow>
      (\<exists>a. fst (rag_answer search generate q k t) = Inr \<lparr>answer = a, sources = []\<rparr>)) \<and>
   (GenerateCall sp um cc tt \<in> set (snd (rag_answer search generate q k t)) \<longrightarrow>
    generate sp um cc tt = Inl e \<longrightarrow> py_str e = Inr error_message \<longrightarrow>
      (\<exists>a. fst (rag_answer search generate q k t) = Inr \<lparr>answer = a, sources = []\<rparr>))"
proof (intro conjI impI)
  assume s_ok: "\<forall>e'. search q k = Inl e' \<longrightarrow> (\<exists>m. py_str e' = Inr m)"
    and g_ok: "\<forall>cc' e'. generate system_prompt q cc' t = Inl e' \<longrightarrow> (\<exists>m. py_str e' = Inr m)"
  show "\<exists>result calls. rag_answer search generate q k t = (Inr result, calls)"
  proof (cases "search q k")
    case (Inl e')
    with s_ok obtain m where "py_str e' = Inr m" by blast
    with Inl show ?thesis by (simp add: rag_answer_search_raises handle_exception_cases)
  next
    case (Inr r)
    show ?thesis
    proof (cases "r = None \<or> r = Some []")
      case True
      with Inr rag_answer_no_results[of search q k generate t] show ?thesis by auto
    next
      case False
      then obtain docs where docs: "r = Some docs" "docs \<noteq> []" by auto
      show ?thesis
      proof (cases "build_context docs")
        case (Inl e')
        then have "context_loop docs [] 0 = Inl e'" by (simp add: build_context_def)
        from context_loop_raises[OF this] obtain v where "e' = no_len v" by blast
        with Inl Inr docs rag_answer_builder_raises[of search q k docs e' generate t]
          handle_exception_no_len[of v]
        show ?thesis by auto
      next
        case bc: (Inr chunks)
        show ?thesis
        proof (cases "chunks = []")
          case True
          with bc Inr docs rag_answer_no_text[of search q k docs generate t]
          show ?thesis by simp
        next
          case ne: False
          show ?thesis
          proof (cases "generate system_prompt q chunks t")
            case (Inl e')
            with g_ok obtain m where "py_str e' = Inr m" by blast
            with Inl bc ne Inr docs
              rag_answer_generate_raises[of search q k docs chunks generate t e']
            show ?thesis by (simp add: handle_exception_cases)
          next
            case (Inr a)
            with bc ne \<open>search q k = Inr r\<close> docs
              rag_answer_success[of search q k docs chunks generate t a]
            show ?thesis by simp
          qed
        qed
      qed
    qed
  qed
next
  assume "search q k = Inl e" "py_str e = Inr error_message"
  then show "\<exists>a. fst (rag_answer search generate q k t) = Inr \<lparr>answer = a, sources = []\<rparr>"
    by (simp add: rag_answer_search_raises handle_exception_cases)
next
  assume c: "GenerateCall sp um cc tt \<in> set (snd (rag_answer search generate q k t))"
    and g: "generate sp um cc tt = Inl e" and m: "py_str e = Inr error_message"
  from rag_answer_generate_called[OF c] obtain docs where
    d: "search q k = Inr (Some docs)" "docs \<noteq> []" "build_context docs = Inr cc" "cc \<noteq> []"
       "sp = system_prompt" "um = q" "tt = t" by blast
  from g d have "generate system_prompt q cc t = Inl e" by simp
  from rag_answer_generate_raises[of search q k docs cc generate t e] d(1-4) this m
  show "\<exists>a. fst (rag_answer search generate q k t) = Inr \<lparr>answer = a, sources = []\<rparr>"
    by (simp add: handle_exception_cases)
qed

lemma build_context_one_passage: "build_context [one_passage] = Inr [u ''abc'']"
  by (simp add: build_context_def one_passage_def dict_get_def u_def MAX_CHARS_PER_CHUNK_def
        MAX_TOTAL_CONTEXT_def Let_def)

lemma build_context_bare_passage: "build_context [bare_passage] = Inr [u ''abc'']"
  by (simp add: build_context_def bare_passage_def dict_get_def u_def MAX_CHARS_PER_CHUNK_def
        MAX_TOTAL_CONTEXT_def Let_def)

lemma u_abc_nonempty: "u ''abc'' \<noteq> []"
  by (simp add: u_def)

lemma run_failing_generate:
  "rag_answer one_passage_search (failing_generate msg) q k t =
     (handle_exception (PyExc ''Exception'' (Inr msg)),
      [SearchCall q k, GenerateCall system_prompt q [u ''abc''] t])"
  using rag_answer_generate_raises[of one_passage_search q k "[one_passage]" "[u ''abc'']"
          "failing_generate msg" t "PyExc ''Exception'' (Inr msg)"]
        build_context_one_passage u_abc_nonempty
  by (simp add: one_passage_search_def failing_generate_def)

lemma run_echo_generate:
  "rag_answer one_passage_search echo_generate q k t =
     (Inr \<lparr>answer = u ''abc'', sources = [source_info one_passage]\<rparr>,
      [SearchCall q k, GenerateCall system_prompt q [u ''abc''] t])"
  using rag_answer_success[of one_passage_search q k "[one_passage]" "[u ''abc'']"
          echo_generate t "u ''abc''"]
        build_context_one_passage u_abc_nonempty
  by (simp add: one_passage_search_def echo_generate_def)

theorem C1_returns_when_str_returns_witness:
  "failing_search [] 3 = Inl (PyExc ''ConnectionError'' (Inr (u ''connection refused''))) \<and>
   py_str (PyExc ''ConnectionError'' (Inr (u ''connection refused''))) =
     Inr (u ''connection refused'') \<and>
   (\<exists>result calls. rag_answer failing_search echo_generate [] 3 1 = (Inr result, calls)) \<and>
   (\<exists>a. fst (rag_answer failing_search echo_generate [] 3 1) =
          Inr \<lparr>answer = a, sources = []\<rparr>) \<and>
   GenerateCall system_prompt [] [u ''abc''] 1
     \<in> set (snd (rag_answer one_passage_search (failing_generate (u ''boom'')) [] 3 1)) \<and>
   failing_generate (u ''boom'') system_prompt [] [u ''abc''] 1 =
     Inl (PyExc ''Exception'' (Inr (u ''boom''))) \<and>
   py_str (PyExc ''Exception'' (Inr (u ''boom''))) = Inr (u ''boom'') \<and>
   (\<exists>result calls.
      rag_answer one_passage_search (failing_generate (u ''boom'')) [] 3 1 =
        (Inr result, calls)) \<and>
   (\<exists>a. fst (rag_answer one_passage_search (failing_generate (u ''boom'')) [] 3 1) =
          Inr \<lparr>answer = a, sources = []\<rparr>)"
  using C1_returns_when_str_returns[of failing_search "[]" 3 echo_generate 1
          "PyExc ''ConnectionError'' (Inr (u ''connection refused''))" "u ''connection refused''"]
        C1_returns_when_str_returns[of one_passage_search "[]" 3
          "failing_generate (u ''boom'')" 1
          "PyExc ''Exception'' (Inr (u ''boom''))" "u ''boom''"
          system_prompt "[]" "[u ''abc'']" 1]
  by (simp add: run_failing_generate failing_search_def failing_generate_def echo_generate_def
        one_passage_search_def)

text \<open>
  C1 as stated, refuted: the search gateway raises an exception whose \<open>__str__\<close>
  raises \<open>RuntimeError\<close>.  The handler catches the exception, \<open>str(e)\<close> raises, and
  the \<open>RuntimeError\<close> leaves \<open>rag_answer\<close>: no result is returned.
\<close>

theorem C1_str_raises_counterexample:
  "unprintable_search [] 3 = Inl unprintable_error \<and>
   rag_answer unprintable_search echo_generate [] 3 1 =
     (Inl (PyExc ''RuntimeError'' (Inr (u ''no message''))), [SearchCall [] 3]) \<and>
   \<not> (\<exists>result calls.
         rag_answer unprintable_search echo_generate [] 3 1 = (Inr result, calls))"
  by (simp add: rag_answer_search_raises unprintable_search_def unprintable_error_def
        handle_exception_str_raises)


lemma lowercase_phrase_matches_ci:
  "str_in (py_lower rate_limit_phrase) (py_lower lowercase_phrase)"
  by (simp add: str_in_def py_lower_def lower_cp_def rate_limit_phrase_def lowercase_phrase_def
        u_def)

lemma lowercase_phrase_not_matched:
  "\<not> str_in rate_limit_phrase lowercase_phrase \<and>
   \<not> str_in (u ''rate limit'') (py_lower lowercase_phrase)"
  by (simp add: str_in_def py_lower_def lower_cp_def rate_limit_phrase_def lowercase_phrase_def
        u_def sublist_code(3))

text \<open>
  C3 as stated, refuted: the generation gateway raises an exception whose message is the
  localized phrase in lower case.  The message holds the phrase when case is ignored, yet
  the answer is the generic error answer, which does not start with the rate-limit marker.
\<close>

theorem C3_lowercase_phrase_counterexample:
  "GenerateCall system_prompt [] [u ''abc''] 1
     \<in> set (snd (rag_answer one_passage_search (failing_generate lowercase_phrase) [] 3 1)) \<and>
   failing_generate lowercase_phrase system_prompt [] [u ''abc''] 1 =
     Inl (PyExc ''Exception'' (Inr lowercase_phrase)) \<and>
   py_str (PyExc ''Exception'' (Inr lowercase_phrase)) = Inr lowercase_phrase \<and>
   str_in (py_lower rate_limit_phrase) (py_lower lowercase_phrase) \<and>
   fst (rag_answer one_passage_search (failing_generate lowercase_phrase) [] 3 1) =
     Inr \<lparr>answer = generic_error_prefix @ lowercase_phrase @ generic_error_suffix,
          sources = []\<rparr> \<and>
   \<not> prefix rate_limit_prefix (generic_error_prefix @ lowercase_phrase @ generic_error_suffix)"
  using lowercase_phrase_matches_ci lowercase_phrase_not_matched
  by (simp add: run_failing_generate handle_exception_cases failing_generate_def
        rate_limit_prefix_def generic_error_prefix_def)

text \<open>
  C3, amended: an exception of a gateway, of whatever class, whose message (what
  \<open>str(e)\<close> returns) holds
  \<open>rate limit\<close> in any mix of upper and lower case, or the localized phrase exactly as
  written, gives the answer that starts with the rate-limit marker, repeats the message and
  asks to wait (\<open>espera\<close>), with no sources.  An exception whose message holds neither
  gives the generic error answer, with no sources; that answer never starts with the
  rate-limit marker.
\<close>

theorem C3_rate_limit_classification:
  assumes "search q k = Inl e \<or>
           (GenerateCall sp um cc tt \<in> set (snd (rag_answer search generate q k t)) \<and>
            generate sp um cc tt = Inl e)"
    and "py_str e = Inr error_message"
  shows "fst (rag_answer search generate q k t) =
           Inr \<lparr>answer =
                  (if str_in rate_limit_phrase error_message \<or>
                      str_in (u ''rate limit'') (py_lower error_message)
                   then rate_limit_prefix @ error_message @ rate_limit_suffix
                   else generic_error_prefix @ error_message @ generic_error_suffix),
                sources = []\<rparr> \<and>
         str_in (u ''espera'') rate_limit_suffix \<and>
         \<not> prefix rate_limit_prefix (generic_error_prefix @ error_message @ generic_error_suffix)"
proof -
  have "fst (rag_answer search generate q k t) = handle_exception e"
    using assms(1)
  proof
    assume "search q k = Inl e"
    then show ?thesis by (simp add: rag_answer_search_raises)
  next
    assume a: "GenerateCall sp um cc tt \<in> set (snd (rag_answer search generate q k t)) \<and>
            generate sp um cc tt = Inl e"
    from rag_answer_generate_called[of sp um cc tt search generate q k t] a obtain docs where
      d: "search q k = Inr (Some docs)" "docs \<noteq> []" "build_context docs = Inr cc" "cc \<noteq> []"
         "sp = system_prompt" "um = q" "tt = t" by blast
    from a d have "generate system_prompt q cc t = Inl e" by simp
    with rag_answer_generate_raises[of search q k docs cc generate t e] d(1-4)
    show ?thesis by simp
  qed
  moreover have "str_in (u ''espera'') rate_limit_suffix"
    by (simp add: str_in_def rate_limit_suffix_def u_def sublist_code(3))
  moreover have
    "\<not> prefix rate_limit_prefix (generic_error_prefix @ error_message @ generic_error_suffix)"
    by (simp add: rate_limit_prefix_def generic_error_prefix_def)
  ultimately show ?thesis using assms(2) by (simp add: handle_exception_cases)
qed

lemma rate_limit_message_matched:
  "str_in (u ''rate limit'') (py_lower rate_limit_message)"
  by (simp add: str_in_def py_lower_def lower_cp_def rate_limit_message_def u_def sublist_code(3))

theorem C3_rate_limit_classification_witness:
  "GenerateCall system_prompt [] [u ''abc''] 1
     \<in> set (snd (rag_answer one_passage_search (failing_generate rate_limit_message) [] 3 1)) \<and>
   failing_generate rate_limit_message system_prompt [] [u ''abc''] 1 =
     Inl (PyExc ''Exception'' (Inr rate_limit_message)) \<and>
   py_str (PyExc ''Exception'' (Inr rate_limit_message)) = Inr rate_limit_message \<and>
   fst (rag_answer one_passage_search (failing_generate rate_limit_message) [] 3 1) =
     Inr \<lparr>answer = rate_limit_prefix @ rate_limit_message @ rate_limit_suffix, sources = []\<rparr>"
  using C3_rate_limit_classification[of one_passage_search "[]" 3
          "PyExc ''Exception'' (Inr rate_limit_message)" system_prompt "[]" "[u ''abc'']" 1
          "failing_generate rate_limit_message" 1 rate_limit_message]
        rate_limit_message_matched
  by (simp add: run_failing_generate failing_generate_def)


lemma source_info_dom:
  "dom (source_info doc) =
     {''source'', ''score''} \<union> (if ''path'' \<in> dom doc then {''path''} else {})"
  by (auto simp: source_info_def Let_def split: option.splits if_splits)

lemma source_info_source:
  "source_info doc ''source'' = Some (dict_get doc ''source'' (PStr (u ''Unknown'')))"
  by (simp add: source_info_def Let_def split: option.splits)

lemma source_info_score:
  "source_info doc ''score'' = Some (dict_get doc ''score'' (PFloat 0))"
  by (simp add: source_info_def Let_def split: option.splits)

lemma source_info_path: "source_info doc ''path'' = doc ''path''"
  by (simp add: source_info_def Let_def split: option.splits)

lemma rag_answer_generate_succeeds:
  assumes "search q k = Inr (Some docs)"
    and "GenerateCall sp um cc tt \<in> set (snd (rag_answer search generate q k t))"
    and "generate sp um cc tt = Inr generated"
  shows "fst (rag_answer search generate q k t) =
           Inr \<lparr>answer = generated, sources = map source_info docs\<rparr>"
proof -
  from rag_answer_generate_called[of sp um cc tt search generate q k t] assms(2) obtain docs' where
    d: "search q k = Inr (Some docs')" "docs' \<noteq> []" "build_context docs' = Inr cc" "cc \<noteq> []"
       "sp = system_prompt" "um = q" "tt = t" by blast
  from d(1) assms(1) have "docs' = docs" by simp
  moreover from assms(3) d have "generate system_prompt q cc t = Inr generated" by simp
  ultimately show ?thesis
    using rag_answer_success[of search q k docs cc generate t generated] d(1-4) by simp
qed

text \<open>
  C4: when the search gateway returns at least one result and the call to the generation
  gateway succeeds, \<open>sources\<close> has one entry per search result, in the same order.  The
  keys of an entry are \<open>source\<close> and \<open>score\<close>, and \<open>path\<close> exactly when the result has
  it; the values are those of the result.  The chunks of the context play no part.
\<close>

theorem C4_sources_one_per_result:
  assumes "search q k = Inr (Some search_results)" and "search_results \<noteq> []"
    and "GenerateCall sp um cc tt \<in> set (snd (rag_answer search generate q k t))"
    and "generate sp um cc tt = Inr generated"
  shows "\<exists>srcs. fst (rag_answer search generate q k t) =
                  Inr \<lparr>answer = generated, sources = srcs\<rparr> \<and>
           length srcs = length search_results \<and>
           (\<forall>i < length search_results.
              dom (srcs ! i) =
                {''source'', ''score''} \<union>
                (if ''path'' \<in> dom (search_results ! i) then {''path''} else {}) \<and>
              (srcs ! i) ''source'' =
                Some (dict_get (search_results ! i) ''source'' (PStr (u ''Unknown''))) \<and>
              (srcs ! i) ''score'' = Some (dict_get (search_results ! i) ''score'' (PFloat 0)) \<and>
              (srcs ! i) ''path'' = (search_results ! i) ''path'')"
  using rag_answer_generate_succeeds[OF assms(1,3,4)]
  by (simp add: source_info_dom source_info_source source_info_score source_info_path)

theorem C4_sources_one_per_result_witness:
  "one_passage_search [] 3 = Inr (Some [one_passage]) \<and> [one_passage] \<noteq> [] \<and>
   GenerateCall system_prompt [] [u ''abc''] 1
     \<in> set (snd (rag_answer one_passage_search echo_generate [] 3 1)) \<and>
   echo_generate system_prompt [] [u ''abc''] 1 = Inr (u ''abc'') \<and>
   (\<exists>srcs. fst (rag_answer one_passage_search echo_generate [] 3 1) =
             Inr \<lparr>answer = u ''abc'', sources = srcs\<rparr> \<and>
           length srcs = 1 \<and>
           dom (srcs ! 0) = {''source'', ''score''} \<and>
           (srcs ! 0) ''source'' = Some (PStr (u ''m.pdf'')) \<and>
           (srcs ! 0) ''score'' = Some (PFloat 0) \<and>
           (srcs ! 0) ''path'' = None)"
  using C4_sources_one_per_result[of one_passage_search "[]" 3 "[one_passage]"
          system_prompt "[]" "[u ''abc'']" 1 echo_generate 1 "u ''abc''"]
  by (simp add: run_echo_generate one_passage_search_def one_passage_def echo_generate_def
        dict_get_def dom_def)

text \<open>
  C10: on the success path the entry of a search result without \<open>source\<close> has the
  source \<open>Unknown\<close>, the entry of a result without \<open>score\<close> has the score 0.0, and no
  entry has the key \<open>pageNumber\<close>, whatever the result holds.
\<close>

theorem C10_source_defaults:
  assumes "search q k = Inr (Some search_results)"
    and "GenerateCall sp um cc tt \<in> set (snd (rag_answer search generate q k t))"
    and "generate sp um cc tt = Inr generated"
    and "i < length search_results"
  shows "\<exists>srcs. fst (rag_answer search generate q k t) =
                  Inr \<lparr>answer = generated, sources = srcs\<rparr> \<and>
           i < length srcs \<and>
           ((search_results ! i) ''source'' = None \<longrightarrow>
              (srcs ! i) ''source'' = Some (PStr (u ''Unknown''))) \<and>
           ((search_results ! i) ''score'' = None \<longrightarrow> (srcs ! i) ''score'' = Some (PFloat 0.0)) \<and>
           ''pageNumber'' \<notin> dom (srcs ! i)"
  using rag_answer_generate_succeeds[OF assms(1,2,3)] assms(4)
  by (simp add: source_info_dom source_info_source source_info_score dict_get_def)

lemma run_bare_passage:
  "rag_answer bare_passage_search echo_generate q k t =
     (Inr \<lparr>answer = u ''abc'', sources = [source_info bare_passage]\<rparr>,
      [SearchCall q k, GenerateCall system_prompt q [u ''abc''] t])"
  using rag_answer_success[of bare_passage_search q k "[bare_passage]" "[u ''abc'']"
          echo_generate t "u ''abc''"]
        build_context_bare_passage u_abc_nonempty
  by (simp add: bare_passage_search_def echo_generate_def)

theorem C10_source_defaults_witness:
  "bare_passage_search [] 3 = Inr (Some [bare_passage]) \<and>
   GenerateCall system_prompt [] [u ''abc''] 1
     \<in> set (snd (rag_answer bare_passage_search echo_generate [] 3 1)) \<and>
   echo_generate system_prompt [] [u ''abc''] 1 = Inr (u ''abc'') \<and>
   (0::nat) < length [bare_passage] \<and>
   bare_passage ''source'' = None \<and>
   bare_passage ''score'' = None \<and>
   bare_passage ''pageNumber'' = Some (PInt 7) \<and>
   (\<exists>srcs. fst (rag_answer bare_passage_search echo_generate [] 3 1) =
             Inr \<lparr>answer = u ''abc'', sources = srcs\<rparr> \<and>
           (srcs ! 0) ''source'' = Some (PStr (u ''Unknown'')) \<and>
           (srcs ! 0) ''score'' = Some (PFloat 0.0) \<and>
           ''pageNumber'' \<notin> dom (srcs ! 0))"
  using C10_source_defaults[of bare_passage_search "[]" 3 "[bare_passage]"
          system_prompt "[]" "[u ''abc'']" 1 echo_generate 1 "u ''abc''" 0]
  by (simp add: run_bare_passage bare_passage_search_def bare_passage_def echo_generate_def)


text \<open>
  C5: when the search gateway returns an empty list, \<open>rag_answer\<close> returns the fixed
  answer for no results with no sources, and its only gateway call is the search: the
  generation gateway is called zero times.
\<close>

theorem C5_empty_results:
  assumes "search q k = Inr (Some [])"
  shows "rag_answer search generate q k t =
           (Inr \<lparr>answer = no_results_answer, sources = []\<rparr>, [SearchCall q k]) \<and>
         length (filter is_GenerateCall (snd (rag_answer search generate q k t))) = 0"
  using assms by (simp add: rag_answer_no_results)

theorem C5_empty_results_witness:
  "empty_search [] 3 = Inr (Some []) \<and>
   rag_answer empty_search echo_generate [] 3 1 =
     (Inr \<lparr>answer = no_results_answer, sources = []\<rparr>, [SearchCall [] 3]) \<and>
   length (filter is_GenerateCall (snd (rag_answer empty_search echo_generate [] 3 1))) = 0"
  using C5_empty_results[of empty_search "[]" 3 echo_generate 1]
  by (simp add: empty_search_def)

lemma context_loop_all_skipped:
  "\<forall>d \<in> set docs. \<not> truthy (dict_get d ''content'' (PStr [])) \<Longrightarrow>
     context_loop docs acc tot = Inr acc"
  by (induction docs arbitrary: acc tot) simp_all

text \<open>
  C8: when the search gateway returns a non-empty list in which the content of every
  result is absent, \<open>None\<close> or the empty string, \<open>rag_answer\<close> returns the fixed answer
  for documents without usable text, with no sources, and the generation gateway is called
  zero times.
\<close>

theorem C8_no_usable_text:
  assumes "search q k = Inr (Some search_results)" and "search_results \<noteq> []"
    and "\<forall>d \<in> set search_results.
           d ''content'' = None \<or> d ''content'' = Some (PStr []) \<or> d ''content'' = Some PNone"
  shows "rag_answer search generate q k t =
           (Inr \<lparr>answer = no_text_answer, sources = []\<rparr>, [SearchCall q k]) \<and>
         length (filter is_GenerateCall (snd (rag_answer search generate q k t))) = 0"
proof -
  from assms(3) have "\<forall>d \<in> set search_results. \<not> truthy (dict_get d ''content'' (PStr []))"
    by (auto simp: dict_get_def)
  then have "build_context search_results = Inr []"
    by (simp add: build_context_def context_loop_all_skipped)
  with rag_answer_no_text[of search q k search_results generate t] assms(1,2)
  show ?thesis by simp
qed

theorem C8_no_usable_text_witness:
  "empty_content_search [] 3 =
     Inr (Some [[''content'' \<mapsto> PStr []], [''source'' \<mapsto> PStr (u ''m.pdf'')]]) \<and>
   [[''content'' \<mapsto> PStr []], [''source'' \<mapsto> PStr (u ''m.pdf'')]] \<noteq> [] \<and>
   ([''content'' \<mapsto> PStr []]) ''content'' = Some (PStr []) \<and>
   ([''source'' \<mapsto> PStr (u ''m.pdf'')]) ''content'' = None \<and>
   rag_answer empty_content_search echo_generate [] 3 1 =
     (Inr \<lparr>answer = no_text_answer, sources = []\<rparr>, [SearchCall [] 3]) \<and>
   length (filter is_GenerateCall (snd (rag_answer empty_content_search echo_generate [] 3 1))) = 0"
  using C8_no_usable_text[of empty_content_search "[]" 3
          "[[''content'' \<mapsto> PStr []], [''source'' \<mapsto> PStr (u ''m.pdf'')]]" echo_generate 1]
  by (simp add: empty_content_search_def)

end
